theory Spec2Isabelle
  imports Complex_Main
begin

section \<open>JavaScript values and the coercions the script relies on\<close>

text \<open>
  The values that \<^verbatim>\<open>conf['syncedBlockHeight']\<close> and the block heights can hold:
  an integer number, \<^verbatim>\<open>NaN\<close>, \<^verbatim>\<open>undefined\<close> (a key absent from conf.json),
  \<^verbatim>\<open>null\<close> and the booleans. A conf.json can also hold a string, an array, an object
  or a non-integer number there: these are not part of the model, and nothing below
  rests on the five kinds of value being all there are. Numbers are mathematical
  integers and rationals: the rounding of doubles (beyond \<open>2^53\<close>) is not modelled.
\<close>

datatype jsval = JNum int | JNaN | JUndefined | JNull | JBool bool

text \<open>\<^verbatim>\<open>Number(v)\<close>; \<open>None\<close> stands for \<^verbatim>\<open>NaN\<close>.\<close>

fun ToNumber :: "jsval \<Rightarrow> int option" where
  "ToNumber (JNum n) = Some n"
| "ToNumber JNaN = None"
| "ToNumber JUndefined = None"
| "ToNumber JNull = Some 0"
| "ToNumber (JBool b) = Some (if b then 1 else 0)"

definition isNaN :: "jsval \<Rightarrow> bool" where
  "isNaN v = (ToNumber v = None)"

text \<open>
  \<^verbatim>\<open>parseInt(v)\<close> parses the string form of \<open>v\<close>: an integer number gives itself,
  \<^verbatim>\<open>"undefined"\<close>, \<^verbatim>\<open>"null"\<close>, \<^verbatim>\<open>"true"\<close>, \<^verbatim>\<open>"false"\<close> and \<^verbatim>\<open>"NaN"\<close> give \<^verbatim>\<open>NaN\<close>.
\<close>

fun parseInt :: "jsval \<Rightarrow> jsval" where
  "parseInt (JNum n) = JNum n"
| "parseInt v = JNaN"

text \<open>The numeric operators \<^verbatim>\<open>a + b\<close>, \<^verbatim>\<open>a - b\<close>, \<^verbatim>\<open>a > b\<close>, \<^verbatim>\<open>a < b\<close> on these values.\<close>

definition js_add :: "jsval \<Rightarrow> jsval \<Rightarrow> jsval" where
  "js_add a b = (case (ToNumber a, ToNumber b) of
                   (Some x, Some y) \<Rightarrow> JNum (x + y)
                 | _ \<Rightarrow> JNaN)"

definition js_sub :: "jsval \<Rightarrow> jsval \<Rightarrow> jsval" where
  "js_sub a b = (case (ToNumber a, ToNumber b) of
                   (Some x, Some y) \<Rightarrow> JNum (x - y)
                 | _ \<Rightarrow> JNaN)"

definition js_gt :: "jsval \<Rightarrow> jsval \<Rightarrow> bool" where
  "js_gt a b = (case (ToNumber a, ToNumber b) of
                  (Some x, Some y) \<Rightarrow> x > y
                | _ \<Rightarrow> False)"

definition js_lt :: "jsval \<Rightarrow> jsval \<Rightarrow> bool" where
  "js_lt a b = (case (ToNumber a, ToNumber b) of
                  (Some x, Some y) \<Rightarrow> x < y
                | _ \<Rightarrow> False)"

text \<open>
  The quotient \<^verbatim>\<open>(latestBlockNum - syncedBlockHeight) / offset\<close> need not be an
  integer, and a zero divisor gives an infinity or \<^verbatim>\<open>NaN\<close>.
\<close>

datatype jsnumber = Fin rat | PosInfinity | NegInfinity | NotANumber

definition js_div :: "jsval \<Rightarrow> jsval \<Rightarrow> jsnumber" where
  "js_div a b = (case (ToNumber a, ToNumber b) of
                   (Some x, Some y) \<Rightarrow>
                     (if y \<noteq> 0 then Fin (of_int x / of_int y)
                      else if x > 0 then PosInfinity
                      else if x < 0 then NegInfinity
                      else NotANumber)
                 | _ \<Rightarrow> NotANumber)"

text \<open>\<^verbatim>\<open>Math.max(0, q)\<close>.\<close>

fun Math_max0 :: "jsnumber \<Rightarrow> jsnumber" where
  "Math_max0 (Fin q) = Fin (max 0 q)"
| "Math_max0 PosInfinity = PosInfinity"
| "Math_max0 NegInfinity = Fin 0"
| "Math_max0 NotANumber = NotANumber"

text \<open>The loop test \<^verbatim>\<open>i < iterationCount\<close> for the counter \<open>i = 0, 1, 2, \<dots>\<close>\<close>

fun counter_lt :: "nat \<Rightarrow> jsnumber \<Rightarrow> bool" where
  "counter_lt i (Fin q) = (of_nat i < q)"
| "counter_lt i PosInfinity = True"
| "counter_lt i NegInfinity = False"
| "counter_lt i NotANumber = False"


section \<open>Configuration, collaborators and process state\<close>

text \<open>The document \<^verbatim>\<open>public/conf.json\<close>.\<close>

record conf =
  syncedBlockHeight :: jsval
  sleepInterval :: int
  offset :: int

text \<open>The three contract handles of the module.\<close>

datatype contract = privateSale | chainGuardian | trustPad

text \<open>The name and the environment variable handed to \<^verbatim>\<open>logSync\<close> for each contract.\<close>

fun contract_name :: "contract \<Rightarrow> string" where
  "contract_name privateSale = ''private-sale''"
| "contract_name chainGuardian = ''chain-guardian''"
| "contract_name trustPad = ''trust-pad''"

datatype envvar = PRIVATE_SALE_DURATION | CHAIN_GUARDIAN_DURATION | TRUST_PAD_DURATION

fun duration_var :: "contract \<Rightarrow> envvar" where
  "duration_var privateSale = PRIVATE_SALE_DURATION"
| "duration_var chainGuardian = CHAIN_GUARDIAN_DURATION"
| "duration_var trustPad = TRUST_PAD_DURATION"

type_synonym event = string
type_synonym client = nat

text \<open>
  Every call that leaves the script is recorded, with its arguments and its answer:
  \<open>None\<close> or \<open>False\<close> is a call that threw.
\<close>

datatype effect =
    GetBlockNumber "int option"
  | ReInit client
  | TimeOut int
  | GetPastEvents contract jsval jsval "event list option"
  | LogSync string "event list" client "string option" bool
  | WriteConf conf bool

text \<open>
  The collaborators outside the script (the chain node, the logger module, the file
  system, the process environment). Each answer may depend on the moment of the call,
  which is the number of calls made before it.
\<close>

record world =
  getBlockNumber :: "nat \<Rightarrow> int option"
  reInit :: "nat \<Rightarrow> client"
  getPastEvents :: "nat \<Rightarrow> contract \<Rightarrow> jsval \<Rightarrow> jsval \<Rightarrow> event list option"
  logSync :: "nat \<Rightarrow> string \<Rightarrow> event list \<Rightarrow> client \<Rightarrow> string option \<Rightarrow> bool"
  writeFileSync :: "nat \<Rightarrow> conf \<Rightarrow> bool"
  env :: "envvar \<Rightarrow> string option"

text \<open>
  The process: the in-memory \<^verbatim>\<open>conf\<close> object (one object, shared by
  \<^verbatim>\<open>SyncByUpdate\<close> and \<^verbatim>\<open>log\<close>), the content of \<^verbatim>\<open>public/conf.json\<close>, the
  module variable \<^verbatim>\<open>web3\<close>, and the calls made so far.
\<close>

record state =
  conf_obj :: conf
  conf_json :: conf
  web3 :: client
  trace :: "effect list"

text \<open>
  How a piece of the script ends: it runs to its end, the process exits with a code,
  or an \<^verbatim>\<open>Error\<close> is thrown.
\<close>

datatype outcome = Normal | Exited int | Threw string

definition now :: "state \<Rightarrow> nat" where
  "now st = length (trace st)"

definition emit :: "effect \<Rightarrow> state \<Rightarrow> state" where
  "emit e st = st\<lparr>trace := trace st @ [e]\<rparr>"

text \<open>\<^verbatim>\<open>process.exit()\<close> without an argument exits with \<^verbatim>\<open>process.exitCode\<close>, which the
  script never sets: the code is 0.\<close>

definition process_exitCode :: int where
  "process_exitCode = 0"

definition timeOut :: "int \<Rightarrow> state \<Rightarrow> state" where
  "timeOut seconds st = emit (TimeOut seconds) st"


section \<open>The script\<close>

text \<open>
  \<^verbatim>\<open>saveConf\<close>: write the whole object; a failed write ends the process, and the file
  is taken to keep its previous content.
\<close>

definition saveConf :: "world \<Rightarrow> state \<Rightarrow> outcome \<times> state" where
  "saveConf w st =
     (if writeFileSync w (now st) (conf_obj st)
      then (Normal, (emit (WriteConf (conf_obj st) True) st)\<lparr>conf_json := conf_obj st\<rparr>)
      else (Exited process_exitCode, emit (WriteConf (conf_obj st) False) st))"

text \<open>\<^verbatim>\<open>loadConf\<close>: \<open>None\<close> is a file that is missing or does not parse.\<close>

definition loadConf :: "conf option \<Rightarrow> string + conf" where
  "loadConf file = (case file of
                      None \<Rightarrow> Inl ''Can not read public/conf.json''
                    | Some c \<Rightarrow> Inr c)"

text \<open>
  \<^verbatim>\<open>blockHeights\<close>: the pair \<open>(latestBlockNum, syncedBlockHeight)\<close>, or the thrown
  message. A failed \<^verbatim>\<open>getBlockNumber\<close> is caught and gives an object without the key
  \<^verbatim>\<open>latestBlockNum\<close>, which the caller reads as \<^verbatim>\<open>undefined\<close>.
\<close>

definition blockHeights :: "world \<Rightarrow> state \<Rightarrow> (string + jsval \<times> jsval) \<times> state" where
  "blockHeights w st =
     (let synced = syncedBlockHeight (conf_obj st) in
      if isNaN synced then (Inl ''syncedBlockHeight must be integer'', st)
      else (case getBlockNumber w (now st) of
              None \<Rightarrow> (Inr (JUndefined, synced), emit (GetBlockNumber None) st)
            | Some n \<Rightarrow> (Inr (JNum n, synced), emit (GetBlockNumber (Some n)) st)))"

text \<open>
  One of the three blocks of the loop body of \<^verbatim>\<open>log\<close>: fetch the events of a contract
  over \<open>(from, to)\<close>, and hand a non-empty batch to \<^verbatim>\<open>logSync\<close>. A failed fetch sleeps
  and calls \<^verbatim>\<open>process.exit(0)\<close>; a failed \<^verbatim>\<open>logSync\<close> calls \<^verbatim>\<open>process.exit()\<close>.
\<close>

definition fetch_and_log :: "world \<Rightarrow> contract \<Rightarrow> jsval \<Rightarrow> jsval \<Rightarrow> state \<Rightarrow> outcome \<times> state" where
  "fetch_and_log w c from to st =
     (let answer = getPastEvents w (now st) c from to;
          st1 = emit (GetPastEvents c from to answer) st
      in case answer of
           None \<Rightarrow> (Exited 0, timeOut (sleepInterval (conf_obj st1)) st1)
         | Some events \<Rightarrow>
             if length events > 0 then
               (let ok = logSync w (now st1) (contract_name c) events (web3 st1) (env w (duration_var c));
                    st2 = emit (LogSync (contract_name c) events (web3 st1) (env w (duration_var c)) ok) st1
                in if ok then (Normal, st2) else (Exited process_exitCode, st2))
             else (Normal, st1))"

text \<open>
  The body of the \<^verbatim>\<open>for\<close> loop of \<^verbatim>\<open>log\<close>: the three contracts in turn with a pause
  of one second between them, then the new \<open>from\<close> and \<open>to\<close>, and the checkpoint.
\<close>

definition log_body ::
  "world \<Rightarrow> jsval \<Rightarrow> int \<Rightarrow> jsval \<Rightarrow> jsval \<Rightarrow> state \<Rightarrow> outcome \<times> jsval \<times> jsval \<times> state" where
  "log_body w latestBlockNum offs from to st =
     (case fetch_and_log w privateSale from to st of
        (Normal, st1) \<Rightarrow>
          (case fetch_and_log w chainGuardian from to (timeOut 1 st1) of
             (Normal, st2) \<Rightarrow>
               (case fetch_and_log w trustPad from to (timeOut 1 st2) of
                  (Normal, st3) \<Rightarrow>
                    (let from' = js_add from (JNum offs);
                         to' = (if js_gt (js_add from' (JNum offs)) latestBlockNum
                                then latestBlockNum else js_add from' (JNum offs));
                         st4 = st3\<lparr>conf_obj := (conf_obj st3)\<lparr>syncedBlockHeight := to'\<rparr>\<rparr>
                     in case saveConf w st4 of (out, st5) \<Rightarrow> (out, from', to', st5))
                | (out, st3) \<Rightarrow> (out, from, to, st3))
           | (out, st2) \<Rightarrow> (out, from, to, st2))
      | (out, st1) \<Rightarrow> (out, from, to, st1))"

text \<open>
  The \<^verbatim>\<open>for\<close> loop of \<^verbatim>\<open>log\<close>. With \<open>offset = 0\<close> and a positive gap the count is
  infinite and the loop only ends by a failure: the result \<open>None\<close> is a loop that
  never ends.
\<close>

partial_function (option) log_loop ::
  "world \<Rightarrow> jsval \<Rightarrow> int \<Rightarrow> jsnumber \<Rightarrow> nat \<Rightarrow> jsval \<Rightarrow> jsval \<Rightarrow> state \<Rightarrow> (outcome \<times> state) option" where
  "log_loop w latestBlockNum offs iterationCount i from to st =
     (if counter_lt i iterationCount then
        (case log_body w latestBlockNum offs from to st of
           (Normal, from', to', st') \<Rightarrow> log_loop w latestBlockNum offs iterationCount (i + 1) from' to' st'
         | (out, from', to', st') \<Rightarrow> Some (out, st'))
      else Some (Normal, st))"

declare log_loop.simps [code]

text \<open>\<^verbatim>\<open>log(conf, latestBlockNum, syncedBlockHeight)\<close>.\<close>

definition log_js :: "world \<Rightarrow> jsval \<Rightarrow> jsval \<Rightarrow> state \<Rightarrow> (outcome \<times> state) option" where
  "log_js w latestBlockNum synced st =
     (let offs = offset (conf_obj st);
          iterationCount = Math_max0 (js_div (js_sub latestBlockNum synced) (JNum offs));
          from = synced;
          to = (if js_gt (js_sub latestBlockNum synced) (JNum offs)
                then js_add (JNum offs) synced else latestBlockNum)
      in log_loop w latestBlockNum offs iterationCount 0 from to st)"

text \<open>
  One turn of the \<^verbatim>\<open>while (true)\<close> loop of \<^verbatim>\<open>SyncByUpdate\<close>. \<open>Normal\<close> means that the
  loop goes on to its next turn.
\<close>

definition SyncByUpdate_cycle :: "world \<Rightarrow> state \<Rightarrow> (outcome \<times> state) option" where
  "SyncByUpdate_cycle w st =
     (case blockHeights w st of
        (Inl msg, st1) \<Rightarrow> Some (Threw msg, st1)
      | (Inr (latestBlockNum, synced), st1) \<Rightarrow>
          if isNaN (parseInt latestBlockNum) then
            (let h = reInit w (now st1);
                 st2 = (emit (ReInit h) st1)\<lparr>web3 := h\<rparr>
             in Some (Normal, timeOut (sleepInterval (conf_obj st2)) st2))
          else
            (case (if js_gt synced latestBlockNum
                   then saveConf w (st1\<lparr>conf_obj := (conf_obj st1)\<lparr>syncedBlockHeight := latestBlockNum\<rparr>\<rparr>)
                   else (Normal, st1)) of
               (Normal, st2) \<Rightarrow>
                 (case (if js_lt synced latestBlockNum
                        then log_js w latestBlockNum synced st2
                        else Some (Normal, st2)) of
                    None \<Rightarrow> None
                  | Some (Normal, st3) \<Rightarrow> Some (Normal, timeOut (sleepInterval (conf_obj st3)) st3)
                  | Some (out, st3) \<Rightarrow> Some (out, st3))
             | (out, st2) \<Rightarrow> Some (out, st2)))"

text \<open>The first \<open>n\<close> turns of the \<^verbatim>\<open>while (true)\<close> loop, which has no exit of its own.\<close>

fun SyncByUpdate_turns :: "world \<Rightarrow> nat \<Rightarrow> state \<Rightarrow> (outcome \<times> state) option" where
  "SyncByUpdate_turns w 0 st = Some (Normal, st)"
| "SyncByUpdate_turns w (Suc n) st =
     (case SyncByUpdate_cycle w st of
        None \<Rightarrow> None
      | Some (Normal, st') \<Rightarrow> SyncByUpdate_turns w n st'
      | Some (out, st') \<Rightarrow> Some (out, st'))"


section \<open>Observations on the recorded calls\<close>

text \<open>The calls made between two states of one run.\<close>

definition new_effects :: "state \<Rightarrow> state \<Rightarrow> effect list" where
  "new_effects st st' = drop (length (trace st)) (trace st')"

text \<open>The block ranges passed to \<^verbatim>\<open>getPastEvents\<close> of a contract, in order.\<close>

fun fetched_ranges :: "contract \<Rightarrow> effect list \<Rightarrow> (jsval \<times> jsval) list" where
  "fetched_ranges c [] = []"
| "fetched_ranges c (GetPastEvents c' f t r # es) =
     (if c' = c then (f, t) # fetched_ranges c es else fetched_ranges c es)"
| "fetched_ranges c (e # es) = fetched_ranges c es"

text \<open>The event batches that \<^verbatim>\<open>getPastEvents\<close> of a contract returned, in order.\<close>

fun batches :: "contract \<Rightarrow> effect list \<Rightarrow> event list list" where
  "batches c [] = []"
| "batches c (GetPastEvents c' f t (Some evs) # es) =
     (if c' = c then evs # batches c es else batches c es)"
| "batches c (e # es) = batches c es"

text \<open>
  The calls of \<^verbatim>\<open>logSync\<close> under a contract name: the batch, the client handle and
  the duration parameter of each.
\<close>

fun logSync_calls :: "string \<Rightarrow> effect list \<Rightarrow> (event list \<times> client \<times> string option) list" where
  "logSync_calls n [] = []"
| "logSync_calls n (LogSync n' evs h d ok # es) =
     (if n' = n then (evs, h, d) # logSync_calls n es else logSync_calls n es)"
| "logSync_calls n (e # es) = logSync_calls n es"

text \<open>
  In a list of calls, every contract's \<^verbatim>\<open>logSync\<close> calls are its non-empty batches,
  one call each, with the client handle \<open>h\<close> and the contract's duration.
\<close>

definition logged_once :: "world \<Rightarrow> client \<Rightarrow> effect list \<Rightarrow> bool" where
  "logged_once w h new \<longleftrightarrow>
     (\<forall>c. logSync_calls (contract_name c) new
           = map (\<lambda>evs. (evs, h, env w (duration_var c))) (filter (\<lambda>evs. evs \<noteq> []) (batches c new)))"


text \<open>
  The three fatal conditions: a failed event fetch, a failed \<^verbatim>\<open>logSync\<close>, a failed
  write of conf.json.
\<close>

fun fatal :: "effect \<Rightarrow> bool" where
  "fatal (GetPastEvents c f t None) = True"
| "fatal (LogSync n evs h d False) = True"
| "fatal (WriteConf c False) = True"
| "fatal e = False"

text \<open>
  The sub-ranges in closed form, for a gap from \<open>s\<close> to \<open>l\<close> and a sub-range size
  \<open>offs\<close>: the \<open>i\<close>-th range starts at \<open>s + i * offs\<close> and ends \<open>offs\<close> blocks later,
  or at \<open>l\<close>.
\<close>

definition range_from :: "int \<Rightarrow> int \<Rightarrow> nat \<Rightarrow> int" where
  "range_from s offs i = s + int i * offs"

definition range_to :: "int \<Rightarrow> int \<Rightarrow> int \<Rightarrow> nat \<Rightarrow> int" where
  "range_to s l offs i = min (range_from s offs i + offs) l"

definition int_range :: "int \<Rightarrow> int \<Rightarrow> int \<Rightarrow> nat \<Rightarrow> int \<times> int" where
  "int_range s l offs i = (range_from s offs i, range_to s l offs i)"

definition js_range :: "int \<times> int \<Rightarrow> jsval \<times> jsval" where
  "js_range r = (JNum (fst r), JNum (snd r))"

definition sub_range :: "int \<Rightarrow> int \<Rightarrow> int \<Rightarrow> nat \<Rightarrow> jsval \<times> jsval" where
  "sub_range s l offs i = (JNum (range_from s offs i), JNum (range_to s l offs i))"

text \<open>The blocks of a range; \<^verbatim>\<open>fromBlock\<close> and \<^verbatim>\<open>toBlock\<close> are both included.\<close>

fun block_set :: "int \<times> int \<Rightarrow> int set" where
  "block_set (f, t) = {f..t}"

text \<open>The number of passes of the loop, and the value of \<^verbatim>\<open>iterationCount\<close>.\<close>

definition iterations :: "int \<Rightarrow> int \<Rightarrow> int \<Rightarrow> nat" where
  "iterations s l offs = nat \<lceil>max 0 (of_int (l - s) / of_int offs :: rat)\<rceil>"

definition iterationCount :: "int \<Rightarrow> int \<Rightarrow> int \<Rightarrow> jsnumber" where
  "iterationCount s l offs = Math_max0 (js_div (js_sub (JNum l) (JNum s)) (JNum offs))"

text \<open>The calls of \<open>n\<close> turns of the scheduler during which \<^verbatim>\<open>getBlockNumber\<close> fails.\<close>

definition outage_effects :: "world \<Rightarrow> state \<Rightarrow> nat \<Rightarrow> effect list" where
  "outage_effects w st n =
     concat (map (\<lambda>k. [GetBlockNumber None, ReInit (reInit w (now st + 3 * k + 1)),
                        TimeOut (sleepInterval (conf_obj st))]) [0..<n])"


section \<open>Scenarios\<close>

text \<open>
  Scenario A of the specification: the checkpoint at 100, sub-ranges of 100 blocks, a
  sleep of 10 seconds; the process right after \<^verbatim>\<open>loadConf\<close>.
\<close>

definition conf_A :: conf where
  "conf_A = \<lparr>syncedBlockHeight = JNum 100, sleepInterval = 10, offset = 100\<rparr>"

definition start :: "conf \<Rightarrow> state" where
  "start c = \<lparr>conf_obj = c, conf_json = c, web3 = 0, trace = []\<rparr>"

text \<open>A chain at height 250 with no events, and collaborators that never fail.\<close>

definition calm :: world where
  "calm = \<lparr>getBlockNumber = (\<lambda>t. Some 250), reInit = (\<lambda>t. Suc t),
            getPastEvents = (\<lambda>t c f u. Some []), logSync = (\<lambda>t n e h d. True),
            writeFileSync = (\<lambda>t c. True), env = (\<lambda>v. None)\<rparr>"

text \<open>Scenario C: the fetch for the second contract fails in the sub-range from 200.\<close>

definition scenario_C :: world where
  "scenario_C = calm\<lparr>getPastEvents :=
      (\<lambda>t c f u. if c = chainGuardian \<and> f = JNum 200 then None else Some [''Transfer''])\<rparr>"

text \<open>The three fatal conditions, one world each.\<close>

definition fetch_fails :: world where
  "fetch_fails = calm\<lparr>getPastEvents := (\<lambda>t c f u. None)\<rparr>"

definition logger_fails :: world where
  "logger_fails = calm\<lparr>getPastEvents := (\<lambda>t c f u. Some [''Transfer'']),
                       logSync := (\<lambda>t n e h d. False)\<rparr>"

definition disk_fails :: world where
  "disk_fails = calm\<lparr>writeFileSync := (\<lambda>t c. False)\<rparr>"


text \<open>Scenario B: the oracle fails twice (calls 0 and 3), then reports height 300.\<close>

definition outage :: world where
  "outage = calm\<lparr>getBlockNumber := (\<lambda>t. if t < 6 then None else Some 300)\<rparr>"

text \<open>Checkpoints ahead of the chain, level with it, and \<^verbatim>\<open>null\<close>.\<close>

definition conf_ahead :: conf where
  "conf_ahead = conf_A\<lparr>syncedBlockHeight := JNum 300\<rparr>"

definition conf_level :: conf where
  "conf_level = conf_A\<lparr>syncedBlockHeight := JNum 250\<rparr>"

definition conf_null :: conf where
  "conf_null = conf_A\<lparr>syncedBlockHeight := JNull\<rparr>"

text \<open>The process after \<^verbatim>\<open>log\<close> has run through Scenario A on the calm chain.\<close>

definition synced_A :: state where
  "synced_A =
     \<lparr>conf_obj = conf_level, conf_json = conf_level, web3 = 0,
      trace =
        [GetBlockNumber (Some 250),
         GetPastEvents privateSale (JNum 100) (JNum 200) (Some []), TimeOut 1,
         GetPastEvents chainGuardian (JNum 100) (JNum 200) (Some []), TimeOut 1,
         GetPastEvents trustPad (JNum 100) (JNum 200) (Some []),
         WriteConf conf_level True,
         GetPastEvents privateSale (JNum 200) (JNum 250) (Some []), TimeOut 1,
         GetPastEvents chainGuardian (JNum 200) (JNum 250) (Some []), TimeOut 1,
         GetPastEvents trustPad (JNum 200) (JNum 250) (Some []),
         WriteConf conf_level True]\<rparr>"


section \<open>Properties of the model\<close>

lemma fetched_ranges_append [simp]:
  "fetched_ranges c (xs @ ys) = fetched_ranges c xs @ fetched_ranges c ys"
  by (induction c xs rule: fetched_ranges.induct) simp_all

lemma fetch_and_log_unfold:
  "fetch_and_log w c f t st =
     (case getPastEvents w (length (trace st)) c f t of
        None \<Rightarrow> (Exited 0, st\<lparr>trace := trace st @ [GetPastEvents c f t None, TimeOut (sleepInterval (conf_obj st))]\<rparr>)
      | Some evs \<Rightarrow>
          if evs = [] then (Normal, st\<lparr>trace := trace st @ [GetPastEvents c f t (Some [])]\<rparr>)
          else if logSync w (Suc (length (trace st))) (contract_name c) evs (web3 st) (env w (duration_var c))
          then (Normal, st\<lparr>trace := trace st @ [GetPastEvents c f t (Some evs), LogSync (contract_name c) evs (web3 st) (env w (duration_var c)) True]\<rparr>)
          else (Exited 0, st\<lparr>trace := trace st @ [GetPastEvents c f t (Some evs), LogSync (contract_name c) evs (web3 st) (env w (duration_var c)) False]\<rparr>))"
  by (simp add: fetch_and_log_def Let_def now_def emit_def timeOut_def process_exitCode_def split: option.splits)

lemma fetch_and_log_summary:
  assumes "fetch_and_log w c f t st = (out, st')"
  shows "\<exists>new. st' = st\<lparr>trace := trace st @ new\<rparr>
           \<and> (\<forall>c'. fetched_ranges c' new = (if c' = c then [(f, t)] else []))
           \<and> (if out = Normal then \<not> list_ex fatal new else out = Exited 0 \<and> list_ex fatal new)"
  using assms unfolding fetch_and_log_unfold
  by (auto split: option.splits if_splits)

lemma saveConf_unfold:
  "saveConf w st =
     (if writeFileSync w (length (trace st)) (conf_obj st)
      then (Normal, st\<lparr>trace := trace st @ [WriteConf (conf_obj st) True], conf_json := conf_obj st\<rparr>)
      else (Exited 0, st\<lparr>trace := trace st @ [WriteConf (conf_obj st) False]\<rparr>))"
  by (simp add: saveConf_def now_def emit_def process_exitCode_def)

lemma contract_rest: "c \<noteq> chainGuardian \<Longrightarrow> c \<noteq> trustPad \<Longrightarrow> c = privateSale"
  by (cases c) simp_all

lemma log_body_summary:
  assumes "log_body w L offs f t st = (out, f', t', st')"
  shows "\<exists>new. trace st' = trace st @ new \<and> web3 st' = web3 st
           \<and> sleepInterval (conf_obj st') = sleepInterval (conf_obj st)
           \<and> offset (conf_obj st') = offset (conf_obj st)
           \<and> (\<forall>c. set (fetched_ranges c new) \<subseteq> {(f, t)})
           \<and> (if out = Normal
               then f' = js_add f (JNum offs)
                  \<and> t' = (if js_gt (js_add f' (JNum offs)) L then L else js_add f' (JNum offs))
                  \<and> (\<forall>c. fetched_ranges c new = [(f, t)])
                  \<and> \<not> list_ex fatal new
                  \<and> conf_obj st' = (conf_obj st)\<lparr>syncedBlockHeight := t'\<rparr>
                  \<and> conf_json st' = conf_obj st'
               else out = Exited 0 \<and> list_ex fatal new \<and> conf_json st' = conf_json st)"
proof -
  obtain o1 s1 where r1: "fetch_and_log w privateSale f t st = (o1, s1)" by fastforce
  obtain o2 s2 where r2: "fetch_and_log w chainGuardian f t (timeOut 1 s1) = (o2, s2)" by fastforce
  obtain o3 s3 where r3: "fetch_and_log w trustPad f t (timeOut 1 s2) = (o3, s3)" by fastforce
  from fetch_and_log_summary [OF r1] obtain n1 where
    n1: "s1 = st\<lparr>trace := trace st @ n1\<rparr>"
        "\<forall>c'. fetched_ranges c' n1 = (if c' = privateSale then [(f, t)] else [])"
        "if o1 = Normal then \<not> list_ex fatal n1 else o1 = Exited 0 \<and> list_ex fatal n1"
    by blast
  from fetch_and_log_summary [OF r2] obtain n2 where
    n2: "s2 = (timeOut 1 s1)\<lparr>trace := trace (timeOut 1 s1) @ n2\<rparr>"
        "\<forall>c'. fetched_ranges c' n2 = (if c' = chainGuardian then [(f, t)] else [])"
        "if o2 = Normal then \<not> list_ex fatal n2 else o2 = Exited 0 \<and> list_ex fatal n2"
    by blast
  from fetch_and_log_summary [OF r3] obtain n3 where
    n3: "s3 = (timeOut 1 s2)\<lparr>trace := trace (timeOut 1 s2) @ n3\<rparr>"
        "\<forall>c'. fetched_ranges c' n3 = (if c' = trustPad then [(f, t)] else [])"
        "if o3 = Normal then \<not> list_ex fatal n3 else o3 = Exited 0 \<and> list_ex fatal n3"
    by blast
  show ?thesis
  proof (cases "o1 = Normal")
    case False
    with assms r1 have "out = o1" "st' = s1"
      by (auto simp: log_body_def split: outcome.splits)
    with False n1 show ?thesis
      by (intro exI [of _ n1]) auto
  next
    case a1: True
    show ?thesis
    proof (cases "o2 = Normal")
      case False
      with assms r1 r2 a1 have "out = o2" "st' = s2"
        by (auto simp: log_body_def split: outcome.splits)
      with False n1 n2 a1 show ?thesis
        by (intro exI [of _ "n1 @ TimeOut 1 # n2"]) (auto simp: timeOut_def emit_def)
    next
      case a2: True
      show ?thesis
      proof (cases "o3 = Normal")
        case False
        with assms r1 r2 r3 a1 a2 have "out = o3" "st' = s3"
          by (auto simp: log_body_def split: outcome.splits)
        with False n1 n2 n3 a1 a2 show ?thesis
          by (intro exI [of _ "n1 @ TimeOut 1 # n2 @ TimeOut 1 # n3"]) (auto simp: timeOut_def emit_def)
      next
        case a3: True
        define fn where "fn = js_add f (JNum offs)"
        define tn where "tn = (if js_gt (js_add fn (JNum offs)) L then L else js_add fn (JNum offs))"
        define s4 where "s4 = s3\<lparr>conf_obj := (conf_obj s3)\<lparr>syncedBlockHeight := tn\<rparr>\<rparr>"
        from assms r1 r2 r3 a1 a2 a3
        have res: "(out, f', t', st') = (fst (saveConf w s4), fn, tn, snd (saveConf w s4))"
          by (auto simp: log_body_def Let_def fn_def tn_def s4_def split: prod.splits)
        show ?thesis
        proof (cases "writeFileSync w (length (trace s4)) (conf_obj s4)")
          case True
          with res have "out = Normal" "f' = fn" "t' = tn"
            "st' = s4\<lparr>trace := trace s4 @ [WriteConf (conf_obj s4) True], conf_json := conf_obj s4\<rparr>"
            by (simp_all add: saveConf_unfold)
          with n1 n2 n3 a1 a2 a3 show ?thesis
            by (intro exI [of _ "n1 @ TimeOut 1 # n2 @ TimeOut 1 # n3 @ [WriteConf (conf_obj s4) True]"])
               (auto simp: timeOut_def emit_def s4_def fn_def tn_def intro: contract_rest)
        next
          case False
          with res have "out = Exited 0" "f' = fn" "t' = tn"
            "st' = s4\<lparr>trace := trace s4 @ [WriteConf (conf_obj s4) False]\<rparr>"
            by (simp_all add: saveConf_unfold)
          with n1 n2 n3 a1 a2 a3 show ?thesis
            by (intro exI [of _ "n1 @ TimeOut 1 # n2 @ TimeOut 1 # n3 @ [WriteConf (conf_obj s4) False]"])
               (auto simp: timeOut_def emit_def s4_def fn_def tn_def intro: contract_rest)
        qed
      qed
    qed
  qed
qed

lemma iterationCount_pos:
  "0 < offs \<Longrightarrow> iterationCount s l offs = Fin (max 0 (of_int (l - s) / of_int offs))"
  by (simp add: iterationCount_def js_div_def js_sub_def)

lemma counter_lt_iff:
  assumes "0 < offs"
  shows "counter_lt i (iterationCount s l offs) \<longleftrightarrow> range_from s offs i < l"
proof -
  have "(of_nat i < max 0 (of_int (l - s) / of_int offs :: rat))
        \<longleftrightarrow> (of_nat i < (of_int (l - s) / of_int offs :: rat))"
    by (auto simp: max_def)
  also have "\<dots> \<longleftrightarrow> (of_int (int i * offs) < (of_int (l - s) :: rat))"
    using assms by (simp add: pos_less_divide_eq)
  also have "\<dots> \<longleftrightarrow> int i * offs < l - s"
    by (simp only: of_int_less_iff)
  finally show ?thesis
    using assms by (auto simp: iterationCount_pos range_from_def)
qed

lemma iterations_less_iff:
  assumes "0 < offs"
  shows "i < iterations s l offs \<longleftrightarrow> range_from s offs i < l"
proof -
  have "i < iterations s l offs \<longleftrightarrow> int i < \<lceil>max 0 (of_int (l - s) / of_int offs :: rat)\<rceil>"
    by (auto simp: iterations_def)
  also have "\<dots> \<longleftrightarrow> (of_nat i < max 0 (of_int (l - s) / of_int offs :: rat))"
    by (simp add: less_ceiling_iff)
  also have "\<dots> \<longleftrightarrow> counter_lt i (iterationCount s l offs)"
    using assms by (simp add: iterationCount_pos)
  finally show ?thesis
    using assms by (simp add: counter_lt_iff)
qed

lemma log_loop_summary:
  assumes "0 < offs" "i \<le> iterations s l offs"
  shows "\<exists>out st' new.
           log_loop w (JNum l) offs (iterationCount s l offs) i
             (JNum (range_from s offs i)) (JNum (range_to s l offs i)) st = Some (out, st')
         \<and> trace st' = trace st @ new \<and> web3 st' = web3 st
         \<and> sleepInterval (conf_obj st') = sleepInterval (conf_obj st)
         \<and> offset (conf_obj st') = offset (conf_obj st)
         \<and> (\<forall>c. set (fetched_ranges c new) \<subseteq> sub_range s l offs ` {i..<iterations s l offs})
         \<and> (if out = Normal
             then (\<forall>c. fetched_ranges c new = map (sub_range s l offs) [i..<iterations s l offs])
                \<and> \<not> list_ex fatal new
                \<and> (if i < iterations s l offs
                    then conf_obj st' = (conf_obj st)\<lparr>syncedBlockHeight := JNum l\<rparr>
                       \<and> conf_json st' = conf_obj st'
                    else st' = st)
             else out = Exited 0 \<and> list_ex fatal new)"
  using assms
proof (induction "iterations s l offs - i" arbitrary: i st)
  case 0
  then have "i = iterations s l offs" by simp
  then have "\<not> counter_lt i (iterationCount s l offs)"
    using iterations_less_iff [OF \<open>0 < offs\<close>, of i s l] counter_lt_iff [OF \<open>0 < offs\<close>, of i s l]
    by simp
  then have "log_loop w (JNum l) offs (iterationCount s l offs) i
             (JNum (range_from s offs i)) (JNum (range_to s l offs i)) st = Some (Normal, st)"
    by (subst log_loop.simps) simp
  with \<open>i = iterations s l offs\<close> show ?case
    by (intro exI [of _ Normal] exI [of _ st] exI [of _ "[]"]) simp
next
  case (Suc k)
  let ?n = "iterations s l offs"
  from Suc.hyps(2) have lt: "i < ?n" by simp
  then have below: "range_from s offs i < l"
    using iterations_less_iff [OF \<open>0 < offs\<close>] by simp
  then have go: "counter_lt i (iterationCount s l offs)"
    using counter_lt_iff [OF \<open>0 < offs\<close>] by simp
  obtain o1 f1 t1 s1 where body:
    "log_body w (JNum l) offs (JNum (range_from s offs i)) (JNum (range_to s l offs i)) st
       = (o1, f1, t1, s1)"
    using prod_cases4 by blast
  from log_body_summary [OF body] obtain n1 where
    n1: "trace s1 = trace st @ n1" "web3 s1 = web3 st"
        "sleepInterval (conf_obj s1) = sleepInterval (conf_obj st)"
        "offset (conf_obj s1) = offset (conf_obj st)"
        "\<forall>c. set (fetched_ranges c n1) \<subseteq> {sub_range s l offs i}"
        "if o1 = Normal
         then f1 = js_add (JNum (range_from s offs i)) (JNum offs)
            \<and> t1 = (if js_gt (js_add f1 (JNum offs)) (JNum l) then JNum l else js_add f1 (JNum offs))
            \<and> (\<forall>c. fetched_ranges c n1 = [sub_range s l offs i])
            \<and> \<not> list_ex fatal n1
            \<and> conf_obj s1 = (conf_obj st)\<lparr>syncedBlockHeight := t1\<rparr>
            \<and> conf_json s1 = conf_obj s1
         else o1 = Exited 0 \<and> list_ex fatal n1 \<and> conf_json s1 = conf_json st"
    unfolding sub_range_def by blast
  have sub1: "\<forall>c. set (fetched_ranges c n1) \<subseteq> sub_range s l offs ` {i..<?n}"
  proof
    fix c
    from n1(5) have "set (fetched_ranges c n1) \<subseteq> {sub_range s l offs i}" by blast
    moreover have "sub_range s l offs i \<in> sub_range s l offs ` {i..<?n}" using lt by simp
    ultimately show "set (fetched_ranges c n1) \<subseteq> sub_range s l offs ` {i..<?n}" by blast
  qed
  show ?case
  proof (cases "o1 = Normal")
    case False
    with body go have "log_loop w (JNum l) offs (iterationCount s l offs) i
             (JNum (range_from s offs i)) (JNum (range_to s l offs i)) st = Some (o1, s1)"
      by (subst log_loop.simps) (simp split: outcome.splits)
    with False n1(1-4,6) sub1 show ?thesis
      by (intro exI [of _ o1] exI [of _ s1] exI [of _ n1]) simp
  next
    case True
    with n1(6) have f1: "f1 = JNum (range_from s offs (Suc i))"
      by (simp add: js_add_def range_from_def algebra_simps)
    from True n1(6) f1 have t1: "t1 = JNum (range_to s l offs (Suc i))"
      by (auto simp: js_add_def js_gt_def range_to_def min_def)
    from True body go have step:
      "log_loop w (JNum l) offs (iterationCount s l offs) i
             (JNum (range_from s offs i)) (JNum (range_to s l offs i)) st
       = log_loop w (JNum l) offs (iterationCount s l offs) (Suc i)
             (JNum (range_from s offs (Suc i))) (JNum (range_to s l offs (Suc i))) s1"
      by (subst log_loop.simps) (simp add: f1 t1)
    have "k = ?n - Suc i" using Suc.hyps(2) by simp
    moreover have "Suc i \<le> ?n" using lt by simp
    ultimately obtain out st' n2 where
      n2: "log_loop w (JNum l) offs (iterationCount s l offs) (Suc i)
             (JNum (range_from s offs (Suc i))) (JNum (range_to s l offs (Suc i))) s1 = Some (out, st')"
          "trace st' = trace s1 @ n2" "web3 st' = web3 s1"
          "sleepInterval (conf_obj st') = sleepInterval (conf_obj s1)"
          "offset (conf_obj st') = offset (conf_obj s1)"
          "\<forall>c. set (fetched_ranges c n2) \<subseteq> sub_range s l offs ` {Suc i..<?n}"
          "if out = Normal
             then (\<forall>c. fetched_ranges c n2 = map (sub_range s l offs) [Suc i..<?n])
                \<and> \<not> list_ex fatal n2
                \<and> (if Suc i < ?n
                    then conf_obj st' = (conf_obj s1)\<lparr>syncedBlockHeight := JNum l\<rparr>
                       \<and> conf_json st' = conf_obj st'
                    else st' = s1)
             else out = Exited 0 \<and> list_ex fatal n2"
      using Suc.hyps(1) [of "Suc i" s1] \<open>0 < offs\<close> by blast
    have last: "\<not> Suc i < ?n \<Longrightarrow> t1 = JNum l"
      using iterations_less_iff [OF \<open>0 < offs\<close>, of "Suc i" s l] \<open>0 < offs\<close>
      by (simp add: t1 range_to_def)
    have sub: "\<forall>c. set (fetched_ranges c (n1 @ n2)) \<subseteq> sub_range s l offs ` {i..<?n}"
    proof
      fix c
      from n2(6) have "set (fetched_ranges c n2) \<subseteq> sub_range s l offs ` {Suc i..<?n}" by blast
      moreover have "sub_range s l offs ` {Suc i..<?n} \<subseteq> sub_range s l offs ` {i..<?n}"
        by (intro image_mono) auto
      ultimately show "set (fetched_ranges c (n1 @ n2)) \<subseteq> sub_range s l offs ` {i..<?n}"
        using sub1 by auto
    qed
    have upt: "[i..<?n] = i # [Suc i..<?n]"
      using lt by (simp add: upt_conv_Cons)
    show ?thesis
    proof (cases "out = Normal")
      case False
      with n1(1-4) n2(1-5,7) step sub show ?thesis
        by (intro exI [of _ out] exI [of _ st'] exI [of _ "n1 @ n2"]) simp
    next
      case on: True
      have "conf_obj st' = (conf_obj st)\<lparr>syncedBlockHeight := JNum l\<rparr> \<and> conf_json st' = conf_obj st'"
        using on True n1(6) n2(7) last by (cases "Suc i < ?n") auto
      with on True n1(1-4,6) n2(1-5,7) step sub lt upt show ?thesis
        by (intro exI [of _ out] exI [of _ st'] exI [of _ "n1 @ n2"]) simp
    qed
  qed
qed

lemma new_effects_append: "trace st' = trace st @ new \<Longrightarrow> new_effects st st' = new"
  by (simp add: new_effects_def)

lemma log_js_unfold:
  "log_js w (JNum l) (JNum s) st =
     log_loop w (JNum l) (offset (conf_obj st)) (iterationCount s l (offset (conf_obj st))) 0
       (JNum (range_from s (offset (conf_obj st)) 0)) (JNum (range_to s l (offset (conf_obj st)) 0)) st"
proof -
  have "(if js_gt (js_sub (JNum l) (JNum s)) (JNum (offset (conf_obj st)))
         then js_add (JNum (offset (conf_obj st))) (JNum s) else JNum l)
        = JNum (range_to s l (offset (conf_obj st)) 0)"
    by (auto simp: range_from_def range_to_def js_gt_def js_sub_def js_add_def min_def)
  then show ?thesis
    by (simp add: log_js_def Let_def iterationCount_def range_from_def)
qed

lemma log_js_summary:
  assumes "0 < offset (conf_obj st)"
  shows "\<exists>out st' new.
           log_js w (JNum l) (JNum s) st = Some (out, st')
         \<and> trace st' = trace st @ new \<and> web3 st' = web3 st
         \<and> sleepInterval (conf_obj st') = sleepInterval (conf_obj st)
         \<and> offset (conf_obj st') = offset (conf_obj st)
         \<and> (\<forall>c. set (fetched_ranges c new)
                  \<subseteq> sub_range s l (offset (conf_obj st)) ` {0..<iterations s l (offset (conf_obj st))})
         \<and> (if out = Normal
             then (\<forall>c. fetched_ranges c new
                        = map (sub_range s l (offset (conf_obj st))) [0..<iterations s l (offset (conf_obj st))])
                \<and> \<not> list_ex fatal new
                \<and> (if 0 < iterations s l (offset (conf_obj st))
                    then conf_obj st' = (conf_obj st)\<lparr>syncedBlockHeight := JNum l\<rparr>
                       \<and> conf_json st' = conf_obj st'
                    else st' = st)
             else out = Exited 0 \<and> list_ex fatal new)"
  unfolding log_js_unfold
  using log_loop_summary [OF assms, of 0 s l w st] by simp

lemma sub_range_js: "sub_range s l offs i = js_range (int_range s l offs i)"
  by (simp add: sub_range_def js_range_def int_range_def)

lemma iterations_ceiling:
  "s \<le> l \<Longrightarrow> 0 < offs \<Longrightarrow> iterations s l offs = nat \<lceil>of_int (l - s) / of_int offs :: rat\<rceil>"
  by (simp add: iterations_def max_def)

lemma range_from_mono: "0 < offs \<Longrightarrow> i \<le> j \<Longrightarrow> range_from s offs i \<le> range_from s offs j"
  by (simp add: range_from_def mult_right_mono)

lemma range_from_Suc: "range_from s offs (Suc i) = range_from s offs i + offs"
  by (simp add: range_from_def algebra_simps)

lemma range_to_next:
  assumes "0 < offs" "Suc i < iterations s l offs"
  shows "range_to s l offs i = range_from s offs (Suc i)"
  using assms iterations_less_iff [OF assms(1), of "Suc i" s l]
  by (simp add: range_to_def range_from_Suc)

lemma range_to_last:
  assumes "0 < offs" "Suc i = iterations s l offs"
  shows "range_to s l offs i = l"
proof -
  have "\<not> Suc i < iterations s l offs" using assms(2) by simp
  then have "\<not> range_from s offs (Suc i) < l"
    using iterations_less_iff [OF assms(1), of "Suc i" s l] by simp
  then show ?thesis by (simp add: range_to_def range_from_Suc)
qed

lemma range_nonempty:
  assumes "0 < offs" "i < iterations s l offs"
  shows "range_from s offs i < range_to s l offs i"
  using assms iterations_less_iff [OF assms(1), of i s l]
  by (simp add: range_to_def)

lemma range_to_before:
  assumes "0 < offs" "i < j"
  shows "range_to s l offs i \<le> range_from s offs j"
proof -
  have "range_to s l offs i \<le> range_from s offs (Suc i)"
    by (simp add: range_to_def range_from_Suc)
  also have "\<dots> \<le> range_from s offs j"
    using assms by (intro range_from_mono) simp_all
  finally show ?thesis .
qed

lemma ranges_cover:
  assumes "0 < offs" "s < l"
  shows "(\<Union>i\<in>{0..<iterations s l offs}. block_set (int_range s l offs i)) = {s..l}"
proof (intro equalityI subsetI)
  fix x assume "x \<in> (\<Union>i\<in>{0..<iterations s l offs}. block_set (int_range s l offs i))"
  then obtain i where i: "i < iterations s l offs" "range_from s offs i \<le> x" "x \<le> range_to s l offs i"
    by (auto simp: int_range_def)
  have "s \<le> range_from s offs i" using assms(1) by (simp add: range_from_def)
  moreover have "range_to s l offs i \<le> l" by (simp add: range_to_def)
  ultimately show "x \<in> {s..l}" using i by simp
next
  fix x assume x: "x \<in> {s..l}"
  show "x \<in> (\<Union>i\<in>{0..<iterations s l offs}. block_set (int_range s l offs i))"
  proof (cases "x < l")
    case True
    define i where "i = nat ((x - s) div offs)"
    have nn: "0 \<le> (x - s) div offs" using x assms(1) by (simp add: pos_imp_zdiv_nonneg_iff)
    have lo: "range_from s offs i \<le> x"
    proof -
      have "x - s = (x - s) div offs * offs + (x - s) mod offs" by simp
      moreover have "0 \<le> (x - s) mod offs" using assms(1) by simp
      ultimately have "(x - s) div offs * offs \<le> x - s" by linarith
      then show ?thesis using nn by (simp add: range_from_def i_def)
    qed
    have hi: "x < range_from s offs i + offs"
    proof -
      have "x - s = (x - s) div offs * offs + (x - s) mod offs" by simp
      moreover have "(x - s) mod offs < offs" using assms(1) by simp
      ultimately have "x - s < (x - s) div offs * offs + offs" by linarith
      then show ?thesis using nn by (simp add: range_from_def i_def)
    qed
    from lo True have "range_from s offs i < l" by simp
    then have "i < iterations s l offs" using iterations_less_iff [OF assms(1)] by simp
    moreover have "x \<le> range_to s l offs i" using hi True by (simp add: range_to_def)
    ultimately show ?thesis using lo by (auto simp: int_range_def)
  next
    case False
    with x have xl: "x = l" by simp
    have "0 < iterations s l offs"
      using iterations_less_iff [OF assms(1), of 0 s l] assms(2) by (simp add: range_from_def)
    then obtain k where k: "iterations s l offs = Suc k" by (cases "iterations s l offs") auto
    then have "range_to s l offs k = l" using range_to_last [OF assms(1)] by simp
    moreover have "range_from s offs k < l"
      using iterations_less_iff [OF assms(1), of k s l] k by simp
    ultimately show ?thesis using xl k by (auto simp: int_range_def intro!: bexI [of _ k])
  qed
qed

lemma blockHeights_unfold:
  "blockHeights w st =
     (if isNaN (syncedBlockHeight (conf_obj st)) then (Inl ''syncedBlockHeight must be integer'', st)
      else (case getBlockNumber w (length (trace st)) of
              None \<Rightarrow> (Inr (JUndefined, syncedBlockHeight (conf_obj st)),
                       st\<lparr>trace := trace st @ [GetBlockNumber None]\<rparr>)
            | Some n \<Rightarrow> (Inr (JNum n, syncedBlockHeight (conf_obj st)),
                       st\<lparr>trace := trace st @ [GetBlockNumber (Some n)]\<rparr>)))"
  by (simp add: blockHeights_def Let_def now_def emit_def split: option.splits)

lemma blockHeights_raises:
  "fst (blockHeights w st) = Inl msg
     \<longleftrightarrow> isNaN (syncedBlockHeight (conf_obj st)) \<and> msg = ''syncedBlockHeight must be integer''"
  by (auto simp: blockHeights_unfold split: option.splits)

lemma cycle_check_first:
  assumes "isNaN (syncedBlockHeight (conf_obj st))"
  shows "SyncByUpdate_cycle w st = Some (Threw ''syncedBlockHeight must be integer'', st)"
  using assms by (simp add: SyncByUpdate_cycle_def blockHeights_unfold)

lemma blockHeights_oracle_down:
  assumes "\<not> isNaN (syncedBlockHeight (conf_obj st))"
    and "getBlockNumber w (now st) = None"
  shows "blockHeights w st
           = (Inr (JUndefined, syncedBlockHeight (conf_obj st)), emit (GetBlockNumber None) st)"
  using assms by (simp add: blockHeights_unfold now_def emit_def)

lemma cycle_clamp_write_fails:
  assumes "syncedBlockHeight (conf_obj st) = JNum s"
    and "getBlockNumber w (now st) = Some h"
    and "h < s"
    and "\<not> writeFileSync w (Suc (now st)) ((conf_obj st)\<lparr>syncedBlockHeight := JNum h\<rparr>)"
  shows "SyncByUpdate_cycle w st =
           Some (Exited 0, st\<lparr>conf_obj := (conf_obj st)\<lparr>syncedBlockHeight := JNum h\<rparr>,
                            trace := trace st @
                              [GetBlockNumber (Some h),
                               WriteConf ((conf_obj st)\<lparr>syncedBlockHeight := JNum h\<rparr>) False]\<rparr>)"
  using assms
  by (simp add: SyncByUpdate_cycle_def blockHeights_unfold isNaN_def now_def js_gt_def js_lt_def
      timeOut_def emit_def saveConf_unfold)

lemma cycle_outage:
  assumes "\<not> isNaN (syncedBlockHeight (conf_obj st))"
    and "getBlockNumber w (now st) = None"
  shows "SyncByUpdate_cycle w st =
           Some (Normal, st\<lparr>web3 := reInit w (Suc (now st)),
                            trace := trace st @
                              [GetBlockNumber None, ReInit (reInit w (Suc (now st))),
                               TimeOut (sleepInterval (conf_obj st))]\<rparr>)"
  using assms
  by (simp add: SyncByUpdate_cycle_def blockHeights_unfold isNaN_def now_def Let_def
      timeOut_def emit_def)

lemma cycle_catching_up:
  assumes "syncedBlockHeight (conf_obj st) = JNum s"
    and "getBlockNumber w (now st) = Some h"
    and "s < h"
  shows "SyncByUpdate_cycle w st =
           (case log_js w (JNum h) (JNum s) (emit (GetBlockNumber (Some h)) st) of
              None \<Rightarrow> None
            | Some (Normal, st3) \<Rightarrow> Some (Normal, timeOut (sleepInterval (conf_obj st3)) st3)
            | Some (out, st3) \<Rightarrow> Some (out, st3))"
  using assms
  by (simp add: SyncByUpdate_cycle_def blockHeights_unfold isNaN_def now_def js_gt_def js_lt_def
      emit_def)

lemma batches_append [simp]: "batches c (xs @ ys) = batches c xs @ batches c ys"
  by (induction c xs rule: batches.induct) simp_all

lemma logSync_calls_append [simp]:
  "logSync_calls n (xs @ ys) = logSync_calls n xs @ logSync_calls n ys"
  by (induction n xs rule: logSync_calls.induct) simp_all

lemma contract_name_inj [simp]: "contract_name c = contract_name c' \<longleftrightarrow> c = c'"
  by (cases c; cases c') simp_all


lemma logged_once_TimeOut [simp]: "logged_once w h [TimeOut n]"
  by (simp add: logged_once_def)

lemma logged_once_WriteConf [simp]: "logged_once w h [WriteConf c ok]"
  by (simp add: logged_once_def)





lemma turns_one: "SyncByUpdate_turns w (Suc 0) st = SyncByUpdate_cycle w st"
  by (auto split: option.splits outcome.splits)

lemma turns_Suc_end:
  "SyncByUpdate_turns w n st = Some (Normal, st')
   \<Longrightarrow> SyncByUpdate_turns w (Suc n) st = SyncByUpdate_cycle w st'"
proof (induction n arbitrary: st)
  case 0
  then show ?case using turns_one [of w st] by simp
next
  case (Suc n)
  from Suc.prems obtain s1 where s1: "SyncByUpdate_cycle w st = Some (Normal, s1)"
    "SyncByUpdate_turns w n s1 = Some (Normal, st')"
    by (auto split: option.splits outcome.splits)
  from Suc.IH [OF s1(2)] s1(1) show ?case by simp
qed

lemma outage_effects_Suc:
  assumes "now s1 = now st + 3" "sleepInterval (conf_obj s1) = sleepInterval (conf_obj st)"
  shows "outage_effects w st (Suc n)
         = [GetBlockNumber None, ReInit (reInit w (Suc (now st))),
            TimeOut (sleepInterval (conf_obj st))] @ outage_effects w s1 n"
proof -
  have "[0..<Suc n] = 0 # map Suc [0..<n]"
    by (simp add: upt_conv_Cons map_Suc_upt del: upt_Suc)
  then show ?thesis
    using assms by (simp add: outage_effects_def comp_def algebra_simps del: upt_Suc)
qed

lemma outage_turns:
  assumes "\<not> isNaN (syncedBlockHeight (conf_obj st))"
    and "\<forall>k<n. getBlockNumber w (now st + 3 * k) = None"
  shows "\<exists>h. SyncByUpdate_turns w n st
             = Some (Normal, st\<lparr>web3 := h, trace := trace st @ outage_effects w st n\<rparr>)"
  using assms
proof (induction n arbitrary: st)
  case 0
  show ?case by (intro exI [of _ "web3 st"]) (simp add: outage_effects_def)
next
  case (Suc n)
  define s1 where "s1 = st\<lparr>web3 := reInit w (Suc (now st)),
                            trace := trace st @
                              [GetBlockNumber None, ReInit (reInit w (Suc (now st))),
                               TimeOut (sleepInterval (conf_obj st))]\<rparr>"
  from Suc.prems(2) have "getBlockNumber w (now st) = None" by force
  from cycle_outage [OF Suc.prems(1) this]
  have c1: "SyncByUpdate_cycle w st = Some (Normal, s1)" by (simp add: s1_def)
  have now1: "now s1 = now st + 3" by (simp add: s1_def now_def)
  have "\<forall>k<n. getBlockNumber w (now s1 + 3 * k) = None"
  proof (intro allI impI)
    fix k assume "k < n"
    then have "Suc k < Suc n" by simp
    with Suc.prems(2) have none: "getBlockNumber w (now st + 3 * Suc k) = None" by blast
    have eq: "now s1 + 3 * k = now st + 3 * Suc k" by (simp add: now1)
    show "getBlockNumber w (now s1 + 3 * k) = None" unfolding eq by (rule none)
  qed
  moreover have "\<not> isNaN (syncedBlockHeight (conf_obj s1))" using Suc.prems(1) by (simp add: s1_def)
  ultimately obtain h where
    h: "SyncByUpdate_turns w n s1 = Some (Normal, s1\<lparr>web3 := h, trace := trace s1 @ outage_effects w s1 n\<rparr>)"
    using Suc.IH [of s1] by blast
  have "outage_effects w st (Suc n)
         = [GetBlockNumber None, ReInit (reInit w (Suc (now st))),
            TimeOut (sleepInterval (conf_obj st))] @ outage_effects w s1 n"
    by (rule outage_effects_Suc) (simp_all add: now_def s1_def)
  with c1 h show ?case
    by (intro exI [of _ h]) (simp add: s1_def)
qed

lemma cycle_level:
  assumes "syncedBlockHeight (conf_obj st) = JNum h"
    and "getBlockNumber w (now st) = Some h"
  shows "SyncByUpdate_cycle w st =
           Some (Normal, st\<lparr>trace := trace st @
                   [GetBlockNumber (Some h), TimeOut (sleepInterval (conf_obj st))]\<rparr>)"
  using assms
  by (simp add: SyncByUpdate_cycle_def blockHeights_unfold isNaN_def now_def js_gt_def js_lt_def
      timeOut_def emit_def)

lemma cycle_clamp:
  assumes "syncedBlockHeight (conf_obj st) = JNum s"
    and "getBlockNumber w (now st) = Some h"
    and "h < s"
    and "writeFileSync w (Suc (now st)) ((conf_obj st)\<lparr>syncedBlockHeight := JNum h\<rparr>)"
  shows "SyncByUpdate_cycle w st =
           Some (Normal, st\<lparr>conf_obj := (conf_obj st)\<lparr>syncedBlockHeight := JNum h\<rparr>,
                            conf_json := (conf_obj st)\<lparr>syncedBlockHeight := JNum h\<rparr>,
                            trace := trace st @
                              [GetBlockNumber (Some h),
                               WriteConf ((conf_obj st)\<lparr>syncedBlockHeight := JNum h\<rparr>) True,
                               TimeOut (sleepInterval (conf_obj st))]\<rparr>)"
  using assms
  by (simp add: SyncByUpdate_cycle_def blockHeights_unfold isNaN_def now_def js_gt_def js_lt_def
      timeOut_def emit_def saveConf_unfold)


section \<open>The claims\<close>

subsection \<open>C1: the checkpoint written at the end of a sub-range\<close>

text \<open>
  Claim C1 says that the checkpoint persisted at the end of sub-range \<open>[from, to]\<close> is that
  sub-range's \<open>to\<close>, so that a failure inside a sub-range leaves the checkpoint at the start
  of that sub-range. The loop body advances \<open>from\<close> and \<open>to\<close> first and saves the new
  \<open>to\<close>, which is the end of the next sub-range. In Scenario A the pass over (100, 200)
  persists 250; in Scenario C, where the fetch for the second contract fails inside
  (200, 250), the process exits with the persisted checkpoint at 250, the \<open>to\<close> of the
  sub-range that failed, and not at 200.
\<close>

theorem checkpoint_saved_one_range_ahead:
  "(case log_body calm (JNum 250) 100 (JNum 100) (JNum 200) (start conf_A) of
      (out, from', to', st') \<Rightarrow> (out, from', to', syncedBlockHeight (conf_json st')))
     = (Normal, JNum 200, JNum 250, JNum 250)
   \<and> map_option (\<lambda>(out, st'). (out, fetched_ranges chainGuardian (trace st'),
                                  syncedBlockHeight (conf_json st')))
        (log_js scenario_C (JNum 250) (JNum 100) (start conf_A))
     = Some (Exited 0, [(JNum 100, JNum 200), (JNum 200, JNum 250)], JNum 250)"
  by code_simp


subsection \<open>C2: the sub-ranges of one run\<close>

text \<open>
  Claim C2: for \<open>syncedBlockHeight \<le> latestBlockNum\<close> and \<open>offset > 0\<close>, \<^verbatim>\<open>log\<close> returns, and
  when no call fails the ranges passed to \<^verbatim>\<open>getPastEvents\<close> of each contract are integer
  ranges \<open>rs\<close> such that: their number is \<open>ceil((latestBlockNum - syncedBlockHeight) / offset)\<close>;
  each range ends where the next begins; no range reaches beyond the start of a later one;
  together they cover exactly the blocks from \<open>syncedBlockHeight\<close> to \<open>latestBlockNum\<close>; there
  is none when the two heights are equal; and the persisted checkpoint ends at
  \<open>latestBlockNum\<close>.
\<close>

theorem log_sub_ranges_cover:
  assumes "s \<le> l" and "0 < offset (conf_obj st)"
  shows "\<exists>out st'. log_js w (JNum l) (JNum s) st = Some (out, st')
          \<and> (out = Normal \<longrightarrow>
               (\<forall>c. \<exists>rs. fetched_ranges c (new_effects st st') = map js_range rs
                  \<and> length rs = nat \<lceil>of_int (l - s) / of_int (offset (conf_obj st)) :: rat\<rceil>
                  \<and> (\<forall>i. Suc i < length rs \<longrightarrow> snd (rs ! i) = fst (rs ! Suc i))
                  \<and> (\<forall>i j. i < j \<longrightarrow> j < length rs \<longrightarrow> snd (rs ! i) \<le> fst (rs ! j))
                  \<and> (s < l \<longrightarrow> (\<Union>r\<in>set rs. block_set r) = {s..l})
                  \<and> (s = l \<longrightarrow> rs = []))
             \<and> (s < l \<longrightarrow> syncedBlockHeight (conf_json st') = JNum l))"
proof -
  let ?o = "offset (conf_obj st)"
  let ?n = "iterations s l ?o"
  let ?rs = "map (int_range s l ?o) [0..<?n]"
  from log_js_summary [OF assms(2), of w l s] obtain out st' new where
    run: "log_js w (JNum l) (JNum s) st = Some (out, st')" "trace st' = trace st @ new"
    and ok: "out = Normal \<Longrightarrow> \<forall>c. fetched_ranges c new = map (sub_range s l ?o) [0..<?n]"
      "out = Normal \<Longrightarrow> 0 < ?n \<Longrightarrow> conf_obj st' = (conf_obj st)\<lparr>syncedBlockHeight := JNum l\<rparr>
           \<and> conf_json st' = conf_obj st'"
    by (metis (no_types, lifting))
  have new: "new_effects st st' = new" using run(2) by (rule new_effects_append)
  have pos: "s < l \<Longrightarrow> 0 < ?n"
    using iterations_less_iff [OF assms(2), of 0 s l] by (simp add: range_from_def)
  have zero: "s = l \<Longrightarrow> ?n = 0"
    using iterations_less_iff [OF assms(2), of 0 s l] by (simp add: range_from_def)
  have p1: "map (sub_range s l ?o) [0..<?n] = map js_range ?rs"
    by (simp add: sub_range_js)
  have p2: "length ?rs = nat \<lceil>of_int (l - s) / of_int ?o :: rat\<rceil>"
    using iterations_ceiling [OF assms] by simp
  have p3: "\<forall>i. Suc i < length ?rs \<longrightarrow> snd (?rs ! i) = fst (?rs ! Suc i)"
    using range_to_next [OF assms(2)] by (simp add: int_range_def)
  have p4: "\<forall>i j. i < j \<longrightarrow> j < length ?rs \<longrightarrow> snd (?rs ! i) \<le> fst (?rs ! j)"
    using range_to_before [OF assms(2)] by (simp add: int_range_def)
  have p5: "s < l \<longrightarrow> (\<Union>r\<in>set ?rs. block_set r) = {s..l}"
    using ranges_cover [OF assms(2), of s l] by simp
  have p6: "s = l \<longrightarrow> ?rs = []"
    using zero by simp
  have "out = Normal \<longrightarrow>
          (\<forall>c. \<exists>rs. fetched_ranges c new = map js_range rs
              \<and> length rs = nat \<lceil>of_int (l - s) / of_int ?o :: rat\<rceil>
              \<and> (\<forall>i. Suc i < length rs \<longrightarrow> snd (rs ! i) = fst (rs ! Suc i))
              \<and> (\<forall>i j. i < j \<longrightarrow> j < length rs \<longrightarrow> snd (rs ! i) \<le> fst (rs ! j))
              \<and> (s < l \<longrightarrow> (\<Union>r\<in>set rs. block_set r) = {s..l})
              \<and> (s = l \<longrightarrow> rs = []))"
  proof (intro impI allI)
    fix c assume "out = Normal"
    then have "fetched_ranges c new = map js_range ?rs" using ok(1) p1 by simp
    with p2 p3 p4 p5 p6 show "\<exists>rs. fetched_ranges c new = map js_range rs
              \<and> length rs = nat \<lceil>of_int (l - s) / of_int ?o :: rat\<rceil>
              \<and> (\<forall>i. Suc i < length rs \<longrightarrow> snd (rs ! i) = fst (rs ! Suc i))
              \<and> (\<forall>i j. i < j \<longrightarrow> j < length rs \<longrightarrow> snd (rs ! i) \<le> fst (rs ! j))
              \<and> (s < l \<longrightarrow> (\<Union>r\<in>set rs. block_set r) = {s..l})
              \<and> (s = l \<longrightarrow> rs = [])"
      by (intro exI [of _ ?rs]) blast
  qed
  moreover have "out = Normal \<longrightarrow> s < l \<longrightarrow> syncedBlockHeight (conf_json st') = JNum l"
    using ok(2) pos by simp
  ultimately show ?thesis using run(1) new by auto
qed

text \<open>
  Scenario A of the specification: from 100 to 250 in steps of 100, the ranges are
  (100, 200) and (200, 250), and the persisted checkpoint ends at 250.
\<close>

theorem log_sub_ranges_scenario_A:
  "(100::int) \<le> 250 \<and> 0 < offset (conf_obj (start conf_A))
   \<and> map_option (\<lambda>(out, st'). (out, fetched_ranges trustPad (new_effects (start conf_A) st'),
                                  syncedBlockHeight (conf_json st')))
        (log_js calm (JNum 250) (JNum 100) (start conf_A))
     = Some (Normal, [(JNum 100, JNum 200), (JNum 200, JNum 250)], JNum 250)"
proof -
  have h1: "(100::int) \<le> 250" by simp
  have h2: "0 < offset (conf_obj (start conf_A))" by (simp add: start_def conf_A_def)
  have run: "map_option (\<lambda>(out, st'). (out, fetched_ranges trustPad (new_effects (start conf_A) st'),
                                  syncedBlockHeight (conf_json st')))
        (log_js calm (JNum 250) (JNum 100) (start conf_A))
     = Some (Normal, [(JNum 100, JNum 200), (JNum 200, JNum 250)], JNum 250)"
    by code_simp
  from log_sub_ranges_cover [OF h1 h2, of calm] h1 h2 run show ?thesis by blast
qed


subsection \<open>C3: the exit code of the fatal conditions\<close>

text \<open>
  Claim C3, as amended: in a turn of the scheduler that starts from an integer checkpoint
  with \<open>offset > 0\<close>, the turn ends; if an event fetch, a \<^verbatim>\<open>logSync\<close> call or a write of
  conf.json failed in it, the process has exited, and the exit code is 0 (the claim says
  non-zero); if none failed, the loop goes on.
\<close>

theorem fatal_conditions_exit_zero:
  assumes "syncedBlockHeight (conf_obj st) = JNum s" and "0 < offset (conf_obj st)"
  shows "\<exists>out st'. SyncByUpdate_cycle w st = Some (out, st')
           \<and> (if list_ex fatal (new_effects st st') then out = Exited 0 else out = Normal)"
proof (cases "getBlockNumber w (now st)")
  case None
  have "\<not> isNaN (syncedBlockHeight (conf_obj st))" using assms(1) by (simp add: isNaN_def)
  from cycle_outage [OF this None] show ?thesis by (simp add: new_effects_def)
next
  case (Some h)
  consider "h < s" | "h = s" | "s < h" by linarith
  then show ?thesis
  proof cases
    case 1
    show ?thesis
    proof (cases "writeFileSync w (Suc (now st)) ((conf_obj st)\<lparr>syncedBlockHeight := JNum h\<rparr>)")
      case True
      from cycle_clamp [OF assms(1) Some 1 True] show ?thesis by (simp add: new_effects_def)
    next
      case False
      from cycle_clamp_write_fails [OF assms(1) Some 1 False] show ?thesis by (simp add: new_effects_def)
    qed
  next
    case 2
    with cycle_level [OF assms(1), of w] Some show ?thesis by (simp add: new_effects_def)
  next
    case 3
    let ?s1 = "emit (GetBlockNumber (Some h)) st"
    have o1: "0 < offset (conf_obj ?s1)" using assms(2) by (simp add: emit_def)
    from log_js_summary [OF o1, of w h s] obtain out st' new where
      run: "log_js w (JNum h) (JNum s) ?s1 = Some (out, st')" "trace st' = trace ?s1 @ new"
        "if out = Normal then \<not> list_ex fatal new else out = Exited 0 \<and> list_ex fatal new"
      by (metis (no_types, lifting))
    have cyc: "SyncByUpdate_cycle w st =
           (case Some (out, st') of
              None \<Rightarrow> None
            | Some (Normal, st3) \<Rightarrow> Some (Normal, timeOut (sleepInterval (conf_obj st3)) st3)
            | Some (out, st3) \<Rightarrow> Some (out, st3))"
      using cycle_catching_up [OF assms(1) Some 3] run(1) by simp
    show ?thesis
    proof (cases "out = Normal")
      case True
      with cyc run(2,3) show ?thesis
        by (simp add: new_effects_def timeOut_def emit_def)
    next
      case False
      with cyc run(2,3) show ?thesis
        by (auto simp: new_effects_def emit_def split: outcome.splits)
    qed
  qed
qed

text \<open>A failed \<^verbatim>\<open>logSync\<close> in Scenario A: the turn ends the process with code 0.\<close>

theorem fatal_conditions_exit_zero_witness:
  "syncedBlockHeight (conf_obj (start conf_A)) = JNum 100 \<and> 0 < offset (conf_obj (start conf_A))
   \<and> map_option (\<lambda>(out, st'). (out, list_ex fatal (new_effects (start conf_A) st')))
        (SyncByUpdate_cycle logger_fails (start conf_A)) = Some (Exited 0, True)"
proof -
  have h1: "syncedBlockHeight (conf_obj (start conf_A)) = JNum 100"
    by (simp add: start_def conf_A_def)
  have h2: "0 < offset (conf_obj (start conf_A))" by (simp add: start_def conf_A_def)
  have run: "map_option (\<lambda>(out, st'). (out, list_ex fatal (new_effects (start conf_A) st')))
        (SyncByUpdate_cycle logger_fails (start conf_A)) = Some (Exited 0, True)"
    by code_simp
  from fatal_conditions_exit_zero [OF h1 h2, of logger_fails] h1 h2 run show ?thesis by blast
qed

text \<open>
  The claim as stated fails for each of the three conditions: a failed fetch, a failed
  \<^verbatim>\<open>logSync\<close> and a failed write of conf.json all end the process with exit code 0.
\<close>

theorem fatal_exit_code_is_zero:
  "map_option fst (SyncByUpdate_cycle fetch_fails (start conf_A)) = Some (Exited 0)
   \<and> map_option fst (SyncByUpdate_cycle logger_fails (start conf_A)) = Some (Exited 0)
   \<and> map_option fst (SyncByUpdate_cycle disk_fails (start conf_A)) = Some (Exited 0)"
  by code_simp


subsection \<open>C4: after a successful sync\<close>

text \<open>
  Claim C4, as amended: in a turn in which the oracle height exceeds the checkpoint and
  \<^verbatim>\<open>log\<close> completes, the loop sleeps for \<open>sleepInterval\<close> seconds before its next turn (the
  claim says that it goes on without sleeping): the turn ends with that \<^verbatim>\<open>timeOut\<close> call.
\<close>

theorem catching_up_cycle_sleeps:
  assumes "syncedBlockHeight (conf_obj st) = JNum s"
    and "getBlockNumber w (now st) = Some h"
    and "s < h"
    and "log_js w (JNum h) (JNum s) (emit (GetBlockNumber (Some h)) st) = Some (Normal, st3)"
  shows "SyncByUpdate_cycle w st =
           Some (Normal, st3\<lparr>trace := trace st3 @ [TimeOut (sleepInterval (conf_obj st3))]\<rparr>)"
  using cycle_catching_up [OF assms(1-3)] assms(4) by (simp add: timeOut_def emit_def)

text \<open>Scenario A on the calm chain: the turn ends with a sleep of 10 seconds.\<close>

theorem catching_up_cycle_sleeps_witness:
  "syncedBlockHeight (conf_obj (start conf_A)) = JNum 100
   \<and> getBlockNumber calm (now (start conf_A)) = Some 250
   \<and> (100::int) < 250
   \<and> log_js calm (JNum 250) (JNum 100) (emit (GetBlockNumber (Some 250)) (start conf_A))
       = Some (Normal, synced_A)
   \<and> SyncByUpdate_cycle calm (start conf_A)
       = Some (Normal, synced_A\<lparr>trace := trace synced_A @ [TimeOut 10]\<rparr>)"
proof -
  have h1: "syncedBlockHeight (conf_obj (start conf_A)) = JNum 100"
    by (simp add: start_def conf_A_def)
  have h2: "getBlockNumber calm (now (start conf_A)) = Some 250" by (simp add: calm_def)
  have h3: "(100::int) < 250" by simp
  have h4: "log_js calm (JNum 250) (JNum 100) (emit (GetBlockNumber (Some 250)) (start conf_A))
       = Some (Normal, synced_A)"
    by code_simp
  have "sleepInterval (conf_obj synced_A) = 10"
    by (simp add: synced_A_def conf_level_def conf_A_def)
  with catching_up_cycle_sleeps [OF h1 h2 h3 h4] h1 h2 h3 h4 show ?thesis by simp
qed

text \<open>
  The claim as stated fails in Scenario A: the oracle height 250 exceeds the checkpoint
  100, \<^verbatim>\<open>log\<close> completes, and the last call of the turn is the sleep of \<open>sleepInterval\<close>.
\<close>

theorem catching_up_cycle_ends_with_sleep:
  "map_option fst (log_js calm (JNum 250) (JNum 100) (emit (GetBlockNumber (Some 250)) (start conf_A)))
     = Some Normal
   \<and> map_option (\<lambda>(out, st'). (out, last (trace st'))) (SyncByUpdate_cycle calm (start conf_A))
     = Some (Normal, TimeOut (sleepInterval conf_A))"
  by code_simp


subsection \<open>C5: the oracle below the checkpoint\<close>

text \<open>
  Claim C5: in a turn in which the oracle height \<open>h\<close> is strictly below the checkpoint, the
  checkpoint is set to \<open>h\<close> and written; when the write succeeds, the turn consists of the
  oracle query, that write and the sleep, so that no event fetch occurs, and after it the
  persisted checkpoint is \<open>h\<close>. (A failed write ends the process: \<open>cycle_clamp_write_fails\<close>.)
\<close>

theorem clamp_cycle:
  assumes "syncedBlockHeight (conf_obj st) = JNum s"
    and "getBlockNumber w (now st) = Some h"
    and "h < s"
    and "writeFileSync w (Suc (now st)) ((conf_obj st)\<lparr>syncedBlockHeight := JNum h\<rparr>)"
  shows "\<exists>st'. SyncByUpdate_cycle w st = Some (Normal, st')
           \<and> syncedBlockHeight (conf_obj st') = JNum h
           \<and> syncedBlockHeight (conf_json st') = JNum h
           \<and> new_effects st st' =
                [GetBlockNumber (Some h),
                 WriteConf ((conf_obj st)\<lparr>syncedBlockHeight := JNum h\<rparr>) True,
                 TimeOut (sleepInterval (conf_obj st))]
           \<and> (\<forall>c. fetched_ranges c (new_effects st st') = [])"
  using cycle_clamp [OF assms] by (simp add: new_effects_def)

text \<open>A checkpoint at 300 on a chain at 250: after one turn the persisted checkpoint is 250.\<close>

theorem clamp_cycle_witness:
  "syncedBlockHeight (conf_obj (start conf_ahead)) = JNum 300
   \<and> getBlockNumber calm (now (start conf_ahead)) = Some 250
   \<and> (250::int) < 300
   \<and> writeFileSync calm (Suc (now (start conf_ahead)))
        ((conf_obj (start conf_ahead))\<lparr>syncedBlockHeight := JNum 250\<rparr>)
   \<and> map_option (\<lambda>(out, st'). (out, syncedBlockHeight (conf_json st'), trace st'))
        (SyncByUpdate_cycle calm (start conf_ahead))
       = Some (Normal, JNum 250,
               [GetBlockNumber (Some 250), WriteConf conf_level True, TimeOut 10])"
proof -
  have h1: "syncedBlockHeight (conf_obj (start conf_ahead)) = JNum 300"
    by (simp add: start_def conf_ahead_def)
  have h2: "getBlockNumber calm (now (start conf_ahead)) = Some 250" by (simp add: calm_def)
  have h3: "(250::int) < 300" by simp
  have h4: "writeFileSync calm (Suc (now (start conf_ahead)))
        ((conf_obj (start conf_ahead))\<lparr>syncedBlockHeight := JNum 250\<rparr>)"
    by (simp add: calm_def)
  have run: "map_option (\<lambda>(out, st'). (out, syncedBlockHeight (conf_json st'), trace st'))
        (SyncByUpdate_cycle calm (start conf_ahead))
       = Some (Normal, JNum 250,
               [GetBlockNumber (Some 250), WriteConf conf_level True, TimeOut 10])"
    by code_simp
  from clamp_cycle [OF h1 h2 h3 h4] h1 h2 h3 h4 run show ?thesis by blast
qed


subsection \<open>C6: the oracle fails\<close>

text \<open>
  Claim C6: while \<^verbatim>\<open>getBlockNumber\<close> fails, for any number \<open>n\<close> of turns in a row, every
  turn is an oracle query, a \<^verbatim>\<open>reInit\<close> of the chain client and a sleep of \<open>sleepInterval\<close>
  seconds, and nothing else: the loop goes on, the checkpoint is unchanged in memory and
  in conf.json, and there is no event fetch and no write. When the oracle then reports a
  height \<open>h\<close> above the checkpoint, the next turn calls \<^verbatim>\<open>log\<close> with that unchanged
  checkpoint as \<open>syncedBlockHeight\<close>.
\<close>

theorem oracle_outage_retries:
  assumes "syncedBlockHeight (conf_obj st) = JNum s"
    and "\<forall>k<n. getBlockNumber w (now st + 3 * k) = None"
  shows "\<exists>st'. SyncByUpdate_turns w n st = Some (Normal, st')
           \<and> conf_obj st' = conf_obj st \<and> conf_json st' = conf_json st
           \<and> new_effects st st' = outage_effects w st n
           \<and> (\<forall>h. getBlockNumber w (now st') = Some h \<longrightarrow> s < h \<longrightarrow>
                SyncByUpdate_turns w (Suc n) st =
                  (case log_js w (JNum h) (JNum s) (emit (GetBlockNumber (Some h)) st') of
                     None \<Rightarrow> None
                   | Some (Normal, st3) \<Rightarrow> Some (Normal, timeOut (sleepInterval (conf_obj st3)) st3)
                   | Some (out, st3) \<Rightarrow> Some (out, st3)))"
proof -
  have "\<not> isNaN (syncedBlockHeight (conf_obj st))" using assms(1) by (simp add: isNaN_def)
  from outage_turns [OF this assms(2)] obtain h where
    run: "SyncByUpdate_turns w n st
            = Some (Normal, st\<lparr>web3 := h, trace := trace st @ outage_effects w st n\<rparr>)"
    by blast
  let ?st' = "st\<lparr>web3 := h, trace := trace st @ outage_effects w st n\<rparr>"
  have "\<forall>h. getBlockNumber w (now ?st') = Some h \<longrightarrow> s < h \<longrightarrow>
          SyncByUpdate_turns w (Suc n) st =
            (case log_js w (JNum h) (JNum s) (emit (GetBlockNumber (Some h)) ?st') of
               None \<Rightarrow> None
             | Some (Normal, st3) \<Rightarrow> Some (Normal, timeOut (sleepInterval (conf_obj st3)) st3)
             | Some (out, st3) \<Rightarrow> Some (out, st3))"
  proof (intro allI impI)
    fix h' assume "getBlockNumber w (now ?st') = Some h'" "s < h'"
    moreover have "syncedBlockHeight (conf_obj ?st') = JNum s" using assms(1) by simp
    ultimately show "SyncByUpdate_turns w (Suc n) st =
            (case log_js w (JNum h') (JNum s) (emit (GetBlockNumber (Some h')) ?st') of
               None \<Rightarrow> None
             | Some (Normal, st3) \<Rightarrow> Some (Normal, timeOut (sleepInterval (conf_obj st3)) st3)
             | Some (out, st3) \<Rightarrow> Some (out, st3))"
      using cycle_catching_up [of ?st' s w h'] turns_Suc_end [OF run] by simp
  qed
  with run show ?thesis
    by (intro exI [of _ ?st']) (simp add: new_effects_def)
qed

text \<open>
  Scenario B: the oracle fails twice and then reports 300. After two turns the
  checkpoint is still 100 in memory and on disk; the third turn syncs from 100 to 300.
\<close>

theorem oracle_outage_retries_witness:
  "syncedBlockHeight (conf_obj (start conf_A)) = JNum 100
   \<and> getBlockNumber outage 0 = None \<and> getBlockNumber outage 3 = None
   \<and> SyncByUpdate_turns outage 2 (start conf_A)
       = Some (Normal, \<lparr>conf_obj = conf_A, conf_json = conf_A, web3 = 5,
                        trace = [GetBlockNumber None, ReInit 2, TimeOut 10,
                                 GetBlockNumber None, ReInit 5, TimeOut 10]\<rparr>)
   \<and> map_option (\<lambda>(out, st'). (out, fetched_ranges privateSale (trace st'),
                                  syncedBlockHeight (conf_json st')))
        (SyncByUpdate_turns outage 3 (start conf_A))
       = Some (Normal, [(JNum 100, JNum 200), (JNum 200, JNum 300)], JNum 300)"
proof -
  have h1: "syncedBlockHeight (conf_obj (start conf_A)) = JNum 100"
    by (simp add: start_def conf_A_def)
  have h2: "\<forall>k<2. getBlockNumber outage (now (start conf_A) + 3 * k) = None"
    by (simp add: outage_def calm_def now_def start_def)
  have h3: "getBlockNumber outage 0 = None \<and> getBlockNumber outage 3 = None"
    by (simp add: outage_def calm_def)
  have run2: "SyncByUpdate_turns outage 2 (start conf_A)
       = Some (Normal, \<lparr>conf_obj = conf_A, conf_json = conf_A, web3 = 5,
                        trace = [GetBlockNumber None, ReInit 2, TimeOut 10,
                                 GetBlockNumber None, ReInit 5, TimeOut 10]\<rparr>)"
    by code_simp
  have run3: "map_option (\<lambda>(out, st'). (out, fetched_ranges privateSale (trace st'),
                                  syncedBlockHeight (conf_json st')))
        (SyncByUpdate_turns outage 3 (start conf_A))
       = Some (Normal, [(JNum 100, JNum 200), (JNum 200, JNum 300)], JNum 300)"
    by code_simp
  from oracle_outage_retries [OF h1 h2] h1 h3 run2 run3 show ?thesis by blast
qed


subsection \<open>C7: the oracle level with the checkpoint\<close>

text \<open>
  Claim C7: in a turn in which the oracle height equals the checkpoint, the turn is the
  oracle query followed by a sleep of \<open>sleepInterval\<close> seconds and nothing else: no event
  fetch, no write of the checkpoint, and the state is otherwise unchanged.
\<close>

theorem caught_up_cycle:
  assumes "syncedBlockHeight (conf_obj st) = JNum h"
    and "getBlockNumber w (now st) = Some h"
  shows "SyncByUpdate_cycle w st =
           Some (Normal, st\<lparr>trace := trace st @
                   [GetBlockNumber (Some h), TimeOut (sleepInterval (conf_obj st))]\<rparr>)"
  using assms by (rule cycle_level)

text \<open>A checkpoint at 250 on a chain at 250.\<close>

theorem caught_up_cycle_witness:
  "syncedBlockHeight (conf_obj (start conf_level)) = JNum 250
   \<and> getBlockNumber calm (now (start conf_level)) = Some 250
   \<and> SyncByUpdate_cycle calm (start conf_level)
       = Some (Normal, \<lparr>conf_obj = conf_level, conf_json = conf_level, web3 = 0,
                        trace = [GetBlockNumber (Some 250), TimeOut 10]\<rparr>)"
proof -
  have h1: "syncedBlockHeight (conf_obj (start conf_level)) = JNum 250"
    by (simp add: start_def conf_level_def)
  have h2: "getBlockNumber calm (now (start conf_level)) = Some 250" by (simp add: calm_def)
  from caught_up_cycle [OF h1 h2] h1 h2 show ?thesis
    by (simp add: start_def conf_level_def conf_A_def)
qed


subsection \<open>C8: every range passed to getPastEvents\<close>

text \<open>
  Claim C8: with \<open>syncedBlockHeight < latestBlockNum\<close> and \<open>offset > 0\<close>, \<^verbatim>\<open>log\<close> returns, and every range that it passes to
  \<^verbatim>\<open>getPastEvents\<close> of any contract is a pair of integers with \<open>from \<le> to\<close>, whether the
  run completes or ends in a failure. (The pair computed at the end of the last pass is
  not passed to \<^verbatim>\<open>getPastEvents\<close>.)
\<close>

theorem log_ranges_ordered:
  assumes "s < l" and "0 < offset (conf_obj st)"
  shows "\<exists>out st'. log_js w (JNum l) (JNum s) st = Some (out, st')
          \<and> (\<forall>c. \<forall>r\<in>set (fetched_ranges c (new_effects st st')).
                \<exists>f t. r = (JNum f, JNum t) \<and> f \<le> t)"
proof -
  let ?o = "offset (conf_obj st)"
  let ?n = "iterations s l ?o"
  from log_js_summary [OF assms(2), of w l s] obtain out st' new where
    run: "log_js w (JNum l) (JNum s) st = Some (out, st')" "trace st' = trace st @ new"
    and sub: "\<forall>c. set (fetched_ranges c new) \<subseteq> sub_range s l ?o ` {0..<?n}"
    by blast
  have new: "new_effects st st' = new" using run(2) by (rule new_effects_append)
  have "\<forall>c. \<forall>r\<in>set (fetched_ranges c new). \<exists>f t. r = (JNum f, JNum t) \<and> f \<le> t"
  proof (intro allI ballI)
    fix c r assume "r \<in> set (fetched_ranges c new)"
    with sub have "r \<in> sub_range s l ?o ` {0..<?n}" by blast
    then obtain i where i: "i < ?n" "r = sub_range s l ?o i" by auto
    from range_nonempty [OF assms(2) i(1)] have "range_from s ?o i \<le> range_to s l ?o i" by simp
    with i(2) show "\<exists>f t. r = (JNum f, JNum t) \<and> f \<le> t" by (simp add: sub_range_def)
  qed
  with run(1) new show ?thesis by auto
qed

text \<open>Scenario C, a run that ends in a failed fetch: the ranges passed until then.\<close>

theorem log_ranges_ordered_witness:
  "(100::int) < 250 \<and> 0 < offset (conf_obj (start conf_A))
   \<and> map_option (\<lambda>(out, st'). (fetched_ranges privateSale (new_effects (start conf_A) st'),
                                  fetched_ranges trustPad (new_effects (start conf_A) st')))
        (log_js scenario_C (JNum 250) (JNum 100) (start conf_A))
       = Some ([(JNum 100, JNum 200), (JNum 200, JNum 250)], [(JNum 100, JNum 200)])"
proof -
  have h1: "(100::int) < 250" by simp
  have h2: "0 < offset (conf_obj (start conf_A))" by (simp add: start_def conf_A_def)
  have run: "map_option (\<lambda>(out, st'). (fetched_ranges privateSale (new_effects (start conf_A) st'),
                                  fetched_ranges trustPad (new_effects (start conf_A) st')))
        (log_js scenario_C (JNum 250) (JNum 100) (start conf_A))
       = Some ([(JNum 100, JNum 200), (JNum 200, JNum 250)], [(JNum 100, JNum 200)])"
    by code_simp
  from log_ranges_ordered [OF h1 h2, of scenario_C] h1 h2 run show ?thesis by blast
qed


subsection \<open>C9: one logSync call for each non-empty batch\<close>




subsection \<open>C10: the check of syncedBlockHeight\<close>

text \<open>
  Claim C10 says that \<^verbatim>\<open>blockHeights\<close> raises 'syncedBlockHeight must be integer' if and
  only if the conf's \<open>syncedBlockHeight\<close> is not a number. The guard is \<^verbatim>\<open>isNaN\<close>, which
  converts its argument to a number first, and \<^verbatim>\<open>Number(null)\<close> is 0: with
  \<^verbatim>\<open>"syncedBlockHeight": null\<close> in conf.json and the chain at 250, \<^verbatim>\<open>blockHeights\<close> does
  not raise; it queries the chain and returns the heights 250 and \<^verbatim>\<open>null\<close>. (That the
  check, when it fires, is the first step of the turn, and that a failed oracle query is
  returned as \<^verbatim>\<open>undefined\<close>, are \<open>cycle_check_first\<close> and \<open>blockHeights_oracle_down\<close>.)
\<close>

theorem blockHeights_accepts_null:
  "syncedBlockHeight (conf_obj (start conf_null)) = JNull
   \<and> blockHeights calm (start conf_null)
       = (Inr (JNum 250, JNull), emit (GetBlockNumber (Some 250)) (start conf_null))"
  by (simp add: start_def conf_null_def conf_A_def calm_def blockHeights_unfold isNaN_def emit_def)

end
